theory Spec2Isabelle
  imports Main
begin

section \<open>The data-access layer of koa-skeleton: \<^verbatim>\<open>src/db.js\<close>\<close>

text \<open>
  The module talks to two collaborators it does not define: the connection pool
  (\<^verbatim>\<open>pg.connectPromise\<close>, which hands out a client together with its \<^verbatim>\<open>done\<close>
  callback) and the store behind a client (\<^verbatim>\<open>client.queryPromise\<close>). Both are
  parameters of the model. Generators that \<^verbatim>\<open>yield\<close> promises are run to completion
  one after the other, so each of them is a function on an explicit world state;
  a rejected promise and a \<^verbatim>\<open>throw\<close> are the left injection of a sum.
\<close>

subsection \<open>Values, errors, events\<close>

text \<open>
  The JavaScript values the argument checks of the module tell apart. A number is an
  integer, NaN, or some other non-integral number (truthy, and no integer). A string
  is a primitive or a \<^verbatim>\<open>String\<close> object: lodash's \<^verbatim>\<open>_.isString\<close> takes both, and
  the object is truthy even when its text is empty. \<open>JObj\<close> is any other object.
\<close>

datatype jsval =
  JUndefined | JNull | JBool bool | JInt int | JNaN | JFrac | JStr string
| JStrObj string | JObj




text \<open>
  An object that is thrown. Only the properties the module reads or writes are
  fields: \<open>code\<close> is \<open>None\<close> when the property is absent or no string,
  \<open>removeFromPool\<close> is the truthiness of that property, \<open>human\<close> is \<open>None\<close>
  until it is assigned. \<open>readonly\<close> lists the properties that do not take an
  assignment: all of them for a frozen object, the absent ones for an object that is
  not extensible. The module is in strict mode, so such an assignment throws a
  \<^verbatim>\<open>TypeError\<close>. A thrown primitive (a string, a number) reads like an object
  without flag and code none of whose properties can be assigned.
\<close>

record js_error =
  name :: string
  message :: string
  code :: "string option"
  removeFromPool :: bool
  human :: "string option"
  readonly :: "string list"

text \<open>
  What a \<^verbatim>\<open>throw\<close> or a rejected promise carries: \<^verbatim>\<open>null\<close> or \<^verbatim>\<open>undefined\<close>, of
  which no property can be read or written, or an object.
\<close>

datatype thrown = Nullish | Obj js_error

text \<open>
  What \<^verbatim>\<open>assert(expr)\<close> of better-assert throws when \<^verbatim>\<open>expr\<close> is falsy: the
  message is the text of the expression.
\<close>

definition AssertionError :: "string \<Rightarrow> js_error" where
  "AssertionError expr =
     \<lparr>name = ''AssertionError'', message = expr, code = None,
      removeFromPool = False, human = None, readonly = []\<rparr>"

text \<open>
  The \<^verbatim>\<open>TypeError\<close> of the engine for a property access that is not possible. The
  wording of its message differs between engines; the field holds the expression
  that failed.
\<close>

definition TypeError :: "string \<Rightarrow> js_error" where
  "TypeError expr =
     \<lparr>name = ''TypeError'', message = expr, code = None,
      removeFromPool = False, human = None, readonly = []\<rparr>"

text \<open>
  A lease is one result of \<^verbatim>\<open>connectPromise\<close>: the client and its \<^verbatim>\<open>done\<close>
  callback. The trace records every call the module makes on the pool and on a
  client: a lease handed out, a statement sent on a lease, and \<^verbatim>\<open>done\<close> called for a
  lease, without argument (\<open>None\<close>: the connection goes back to the pool) or with an
  error (\<open>Some\<close> of its message: the pool drops the connection).
\<close>

type_synonym lease = nat

datatype event =
  Acquired lease
| Sent lease string
| Done lease "string option"

text \<open>
  The result of a statement, with its rows in the order the store gave them, and the
  driver: \<open>connectPromise\<close> resolves (\<open>None\<close>) or rejects with an error,
  \<open>queryPromise\<close> of a client takes the statement text and the parameters
  (\<open>None\<close> when the argument is left out) and resolves with a result or rejects.
\<close>

record 'r pg_result =
  rows :: "'r list"

record ('s, 'r) pg =
  connectPromise :: "'s \<Rightarrow> thrown option \<times> 's"
  queryPromise ::
    "lease \<Rightarrow> string \<Rightarrow> jsval list option \<Rightarrow> 's \<Rightarrow> (thrown + 'r pg_result) \<times> 's"

text \<open>
  The world: how many leases the pool has handed out (the next lease gets this
  number), the trace so far, and the state of everything outside the module (the
  contents of the store, the variables a work unit closes over).
\<close>

record 's world =
  leases :: nat
  trace :: "event list"
  ext :: 's

text \<open>
  A work unit (\<^verbatim>\<open>runner\<close>) gets the client of a lease and the state of everything
  outside the module; it returns or throws, reports the statements it sent on the
  client, in order, and leaves a new outside state.
\<close>

type_synonym ('s, 'a) runner = "lease \<Rightarrow> 's \<Rightarrow> (thrown + 'a) \<times> string list \<times> 's"

subsection \<open>Core helper functions\<close>

text \<open>\<^verbatim>\<open>yield pg.connectPromise(config.DATABASE_URL)\<close>: a fresh lease, or the rejection.\<close>

definition connect :: "('s, 'r) pg \<Rightarrow> 's world \<Rightarrow> (thrown + lease) \<times> 's world" where
  "connect pg w =
     (case connectPromise pg (ext w) of
        (Some e, x) \<Rightarrow> (Inl e, w\<lparr>ext := x\<rparr>)
      | (None, x) \<Rightarrow>
          (Inr (leases w),
           w\<lparr>leases := Suc (leases w), trace := trace w @ [Acquired (leases w)], ext := x\<rparr>))"

text \<open>\<^verbatim>\<open>done()\<close> and \<^verbatim>\<open>done(new Error(msg))\<close> of a lease.\<close>

definition done_fn :: "lease \<Rightarrow> string option \<Rightarrow> 's world \<Rightarrow> 's world" where
  "done_fn client arg w = w\<lparr>trace := trace w @ [Done client arg]\<rparr>"

text \<open>\<^verbatim>\<open>yield client.queryPromise(sql, params)\<close>.\<close>

definition client_query ::
  "('s, 'r) pg \<Rightarrow> lease \<Rightarrow> string \<Rightarrow> jsval list option \<Rightarrow> 's world
     \<Rightarrow> (thrown + 'r pg_result) \<times> 's world" where
  "client_query pg client sql params w =
     (case queryPromise pg client sql params (ext w) of
        (r, x) \<Rightarrow> (r, w\<lparr>trace := trace w @ [Sent client sql], ext := x\<rparr>))"

text \<open>\<^verbatim>\<open>function* query(sql, params)\<close>: the \<^verbatim>\<open>finally\<close> block runs on both exits.\<close>

definition query ::
  "('s, 'r) pg \<Rightarrow> string \<Rightarrow> jsval list option \<Rightarrow> 's world
     \<Rightarrow> (thrown + 'r pg_result) \<times> 's world" where
  "query pg sql params w =
     (case connect pg w of
        (Inl e, w1) \<Rightarrow> (Inl e, w1)
      | (Inr client, w1) \<Rightarrow>
          (case client_query pg client sql params w1 of
             (r, w2) \<Rightarrow> (r, done_fn client None w2)))"

text \<open>
  \<^verbatim>\<open>function* queryOne(sql, params)\<close>: \<^verbatim>\<open>result.rows[0]\<close> of an empty array is
  \<^verbatim>\<open>undefined\<close>, here \<open>None\<close>.
\<close>

definition queryOne ::
  "('s, 'r) pg \<Rightarrow> string \<Rightarrow> jsval list option \<Rightarrow> 's world
     \<Rightarrow> (thrown + 'r option) \<times> 's world" where
  "queryOne pg sql params w =
     (case query pg sql params w of
        (Inl e, w1) \<Rightarrow> (Inl e, w1)
      | (Inr result, w1) \<Rightarrow>
          if length (rows result) \<le> 1
          then (Inr (case rows result of [] \<Rightarrow> None | r # _ \<Rightarrow> Some r), w1)
          else (Inl (Obj (AssertionError ''result.rows.length <= 1'')), w1))"

definition queryMany ::
  "('s, 'r) pg \<Rightarrow> string \<Rightarrow> jsval list option \<Rightarrow> 's world
     \<Rightarrow> (thrown + 'r list) \<times> 's world" where
  "queryMany pg sql params w =
     (case query pg sql params w of
        (Inl e, w1) \<Rightarrow> (Inl e, w1)
      | (Inr result, w1) \<Rightarrow> (Inr (rows result), w1))"

text \<open>\<^verbatim>\<open>yield runner(client)\<close>: the statements the work unit sent go to the trace.\<close>

definition run :: "('s, 'a) runner \<Rightarrow> lease \<Rightarrow> 's world \<Rightarrow> (thrown + 'a) \<times> 's world" where
  "run runner client w =
     (case runner client (ext w) of
        (r, stmts, x) \<Rightarrow> (r, w\<lparr>trace := trace w @ map (Sent client) stmts, ext := x\<rparr>))"

text \<open>
  \<^verbatim>\<open>function* withClient(runner)\<close>. The \<^verbatim>\<open>catch\<close> block reads
  \<^verbatim>\<open>err.removeFromPool\<close> first (line 79) and, for a flagged error, assigns
  \<^verbatim>\<open>err.human\<close> (line 80) before it calls \<^verbatim>\<open>done\<close> (line 81). Nothing guards the
  block: when the read or the assignment throws, the \<^verbatim>\<open>TypeError\<close> leaves
  \<open>withClient\<close> and \<^verbatim>\<open>done\<close> is not called. The retry is a recursive call with
  no bound, so the function is partial: \<open>None\<close> is a call that never returns.
\<close>

partial_function (option) withClient ::
  "('s, 'r) pg \<Rightarrow> ('s, 'a) runner \<Rightarrow> 's world \<Rightarrow> ((thrown + 'a) \<times> 's world) option" where
  "withClient pg runner w =
     (case connect pg w of
        (Inl e, w1) \<Rightarrow> Some (Inl e, w1)
      | (Inr client, w1) \<Rightarrow>
          (case run runner client w1 of
             (Inl Nullish, w2) \<Rightarrow> Some (Inl (Obj (TypeError ''err.removeFromPool'')), w2)
           | (Inl (Obj err), w2) \<Rightarrow>
               if removeFromPool err then
                 if ''human'' \<in> set (readonly err) then
                   Some (Inl (Obj (TypeError ''err.human = ...'')), w2)
                 else
                   Some (Inl (Obj (err\<lparr>human := Some ''Could not remove from pool''\<rparr>)),
                         done_fn client (Some ''Removing connection from pool'') w2)
               else if code err = Some ''40P01'' then
                 withClient pg runner (done_fn client None w2)
               else Some (Inl (Obj err), done_fn client None w2)
           | (Inr result, w2) \<Rightarrow> Some (Inr result, done_fn client None w2)))"

declare withClient.simps [code]

text \<open>
  \<^verbatim>\<open>function* withTransaction(runner)\<close>. The generator it passes to
  \<^verbatim>\<open>withClient\<close> is a work unit itself: \<open>txn_try\<close> is its \<^verbatim>\<open>try\<close> block,
  \<open>txn_catch\<close> its \<^verbatim>\<open>catch\<close> block, \<open>transaction\<close> the two together. When
  \<^verbatim>\<open>ROLLBACK\<close> is rejected, the inner \<^verbatim>\<open>catch\<close> assigns \<^verbatim>\<open>err.removeFromPool\<close>
  (line 110); an error that does not take the assignment makes it throw a
  \<^verbatim>\<open>TypeError\<close> in place of the error.
\<close>

definition txn_try :: "('s, 'r) pg \<Rightarrow> ('s, 'a) runner \<Rightarrow> ('s, 'a) runner" where
  "txn_try pg runner client s =
     (case queryPromise pg client ''BEGIN'' None s of
        (Inl err, s1) \<Rightarrow> (Inl err, [''BEGIN''], s1)
      | (Inr b, s1) \<Rightarrow>
          (case runner client s1 of
             (Inl err, stmts, s2) \<Rightarrow> (Inl err, ''BEGIN'' # stmts, s2)
           | (Inr result, stmts, s2) \<Rightarrow>
               (case queryPromise pg client ''COMMIT'' None s2 of
                  (Inl err, s3) \<Rightarrow> (Inl err, ''BEGIN'' # stmts @ [''COMMIT''], s3)
                | (Inr c, s3) \<Rightarrow> (Inr result, ''BEGIN'' # stmts @ [''COMMIT''], s3))))"

definition txn_catch ::
  "('s, 'r) pg \<Rightarrow> lease \<Rightarrow> thrown \<Rightarrow> 's \<Rightarrow> (thrown + 'a) \<times> string list \<times> 's" where
  "txn_catch pg client err s =
     (case queryPromise pg client ''ROLLBACK'' None s of
        (Inl Nullish, s1) \<Rightarrow>
          (Inl (Obj (TypeError ''err.removeFromPool = true'')), [''ROLLBACK''], s1)
      | (Inl (Obj err'), s1) \<Rightarrow>
          if ''removeFromPool'' \<in> set (readonly err') then
            (Inl (Obj (TypeError ''err.removeFromPool = true'')), [''ROLLBACK''], s1)
          else (Inl (Obj (err'\<lparr>removeFromPool := True\<rparr>)), [''ROLLBACK''], s1)
      | (Inr r, s1) \<Rightarrow> (Inl err, [''ROLLBACK''], s1))"

definition transaction :: "('s, 'r) pg \<Rightarrow> ('s, 'a) runner \<Rightarrow> ('s, 'a) runner" where
  "transaction pg runner client s =
     (case txn_try pg runner client s of
        (Inl err, stmts, s1) \<Rightarrow>
          (case txn_catch pg client err s1 of
             (r, stmts', s2) \<Rightarrow> (r, stmts @ stmts', s2))
      | (Inr result, stmts, s1) \<Rightarrow> (Inr result, stmts, s1))"

definition withTransaction ::
  "('s, 'r) pg \<Rightarrow> ('s, 'a) runner \<Rightarrow> 's world \<Rightarrow> ((thrown + 'a) \<times> 's world) option" where
  "withTransaction pg runner w = withClient pg (transaction pg runner) w"

subsection \<open>Custom queries\<close>




definition getStats_sql :: string where
  "getStats_sql =
     '';\<newline>'' @
     ''    SELECT\<newline>'' @
     ''      (SELECT COUNT(*) FROM users) AS users_count,\<newline>'' @
     ''      (SELECT COUNT(*) FROM messages WHERE is_hidden = false) AS messages_count\<newline>'' @
     ''  ''"




text \<open>\<^verbatim>\<open>exports.admin.getStats\<close>: \<^verbatim>\<open>queryOne(sql)\<close>, no parameters.\<close>

definition admin_getStats ::
  "('s, 'r) pg \<Rightarrow> 's world \<Rightarrow> (thrown + 'r option) \<times> 's world" where
  "admin_getStats pg w = queryOne pg getStats_sql None w"

subsection \<open>Reading a trace\<close>

text \<open>The leases \<^verbatim>\<open>done\<close> was called for, in order.\<close>

fun released :: "event list \<Rightarrow> lease list" where
  "released [] = []"
| "released (Done l arg # es) = l # released es"
| "released (e # es) = released es"

text \<open>The leases a trace hands out, in order.\<close>

fun acquired :: "event list \<Rightarrow> lease list" where
  "acquired [] = []"
| "acquired (Acquired l # es) = l # acquired es"
| "acquired (e # es) = acquired es"

text \<open>
  A trace of whole attempts: with no lease held, the next event hands one out; while
  it is held, statements go to that lease only, and the next call of \<^verbatim>\<open>done\<close> is
  for that lease and ends the attempt. The first argument is the lease held.
\<close>

fun lifecycle :: "lease option \<Rightarrow> event list \<Rightarrow> bool" where
  "lifecycle None [] = True"
| "lifecycle (Some l) [] = False"
| "lifecycle None (Acquired l # es) = lifecycle (Some l) es"
| "lifecycle (Some l) (Acquired l' # es) = False"
| "lifecycle None (Sent l' q # es) = False"
| "lifecycle (Some l) (Sent l' q # es) = (l' = l \<and> lifecycle (Some l) es)"
| "lifecycle None (Done l' arg # es) = False"
| "lifecycle (Some l) (Done l' arg # es) = (l' = l \<and> lifecycle None es)"

text \<open>
  The events of one attempt that got a lease: the lease, the statements sent on it,
  one call of \<^verbatim>\<open>done\<close>; the world after such an attempt; and the world after an
  attempt that left \<open>withClient\<close> without a call of \<^verbatim>\<open>done\<close>.
\<close>

definition cycle :: "lease \<Rightarrow> string list \<Rightarrow> string option \<Rightarrow> event list" where
  "cycle l stmts arg = Acquired l # map (Sent l) stmts @ [Done l arg]"

definition after_attempt :: "'s world \<Rightarrow> string list \<Rightarrow> string option \<Rightarrow> 's \<Rightarrow> 's world" where
  "after_attempt w stmts arg x =
     w\<lparr>leases := Suc (leases w), trace := trace w @ cycle (leases w) stmts arg, ext := x\<rparr>"

definition after_leak :: "'s world \<Rightarrow> string list \<Rightarrow> 's \<Rightarrow> 's world" where
  "after_leak w stmts x =
     w\<lparr>leases := Suc (leases w),
       trace := trace w @ Acquired (leases w) # map (Sent (leases w)) stmts, ext := x\<rparr>"

text \<open>
  From \<open>w\<close> to \<open>w'\<close> the trace grew by whole attempts only, and the leases
  released are the leases handed out, each of them new.
\<close>

definition whole_attempts :: "'s world \<Rightarrow> 's world \<Rightarrow> bool" where
  "whole_attempts w w' \<longleftrightarrow>
     (\<exists>new. trace w' = trace w @ new \<and> lifecycle None new \<and>
        released new = acquired new \<and> acquired new = [leases w ..< leases w'] \<and>
        leases w \<le> leases w')"

text \<open>
  The thrown values the \<^verbatim>\<open>catch\<close> block of \<open>withClient\<close> gets through with: an
  object whose \<open>human\<close> property can be assigned if it is flagged.
\<close>

fun catchable :: "thrown \<Rightarrow> bool" where
  "catchable Nullish = False"
| "catchable (Obj err) = (removeFromPool err \<longrightarrow> ''human'' \<notin> set (readonly err))"

text \<open>
  An attempt that ends in a retry: the pool gives a lease, the work unit throws an
  error that is not flagged \<open>removeFromPool\<close> and has the deadlock code, and the
  lease is given back. \<open>retried\<close> is the world after such an attempt, \<open>None\<close> for
  any other attempt; \<open>retries n\<close> is the world after \<open>n\<close> such attempts in a row.
\<close>

definition retried :: "('s, 'r) pg \<Rightarrow> ('s, 'a) runner \<Rightarrow> 's world \<Rightarrow> 's world option" where
  "retried pg runner w =
     (case connectPromise pg (ext w) of
        (Some e, x) \<Rightarrow> None
      | (None, x0) \<Rightarrow>
          (case runner (leases w) x0 of
             (Inr v, stmts, x1) \<Rightarrow> None
           | (Inl Nullish, stmts, x1) \<Rightarrow> None
           | (Inl (Obj err), stmts, x1) \<Rightarrow>
               if \<not> removeFromPool err \<and> code err = Some ''40P01''
               then Some (after_attempt w stmts None x1) else None))"

fun retries :: "nat \<Rightarrow> ('s, 'r) pg \<Rightarrow> ('s, 'a) runner \<Rightarrow> 's world \<Rightarrow> 's world option" where
  "retries 0 pg runner w = Some w"
| "retries (Suc n) pg runner w =
     (case retried pg runner w of None \<Rightarrow> None | Some w1 \<Rightarrow> retries n pg runner w1)"

subsection \<open>A store, work units and worlds to run the functions on\<close>

text \<open>
  The outside state is a counter. The store accepts every statement and answers with
  one row, the counter; the pool always has a connection.
\<close>

definition ex_pg :: "(nat, nat) pg" where
  "ex_pg = \<lparr>connectPromise = (\<lambda>s. (None, s)),
            queryPromise = (\<lambda>client sql params s. (Inr \<lparr>rows = [s]\<rparr>, s))\<rparr>"

definition deadlock_error :: js_error where
  "deadlock_error =
     \<lparr>name = ''error'', message = ''deadlock detected'', code = Some ''40P01'',
      removeFromPool = False, human = None, readonly = []\<rparr>"

text \<open>A work unit that meets a deadlock while the counter is below 2 and counts it.\<close>

definition ex_runner :: "(nat, nat) runner" where
  "ex_runner client s =
     (if s < 2 then (Inl (Obj deadlock_error), [''SELECT 1''], Suc s)
      else (Inr (s + 40), [], s))"

definition ex_world :: "nat world" where
  "ex_world = \<lparr>leases = 0, trace = [], ext = 0\<rparr>"

text \<open>A store that rejects the statements of a list with a given error.\<close>

definition store_failing :: "string list \<Rightarrow> thrown \<Rightarrow> (nat, nat) pg" where
  "store_failing bad e =
     \<lparr>connectPromise = (\<lambda>s. (None, s)),
      queryPromise = (\<lambda>client sql params s.
        if sql \<in> set bad then (Inl e, s) else (Inr \<lparr>rows = [s]\<rparr>, s))\<rparr>"


definition flagged_deadlock :: js_error where
  "flagged_deadlock = deadlock_error\<lparr>removeFromPool := True\<rparr>"

definition unique_violation :: js_error where
  "unique_violation =
     \<lparr>name = ''error'', message = ''duplicate key value violates unique constraint'',
      code = Some ''23505'', removeFromPool = False, human = None, readonly = []\<rparr>"

definition flagged_error :: js_error where
  "flagged_error =
     \<lparr>name = ''Error'', message = ''socket hang up'', code = None,
      removeFromPool = True, human = None, readonly = []\<rparr>"

text \<open>The same errors after \<^verbatim>\<open>Object.freeze\<close>.\<close>

definition frozen_flagged_error :: js_error where
  "frozen_flagged_error = flagged_error\<lparr>readonly := [''removeFromPool'', ''human'']\<rparr>"

definition frozen_flagged_deadlock :: js_error where
  "frozen_flagged_deadlock =
     flagged_deadlock\<lparr>readonly := [''code'', ''removeFromPool'', ''human'']\<rparr>"

definition connection_lost :: js_error where
  "connection_lost =
     \<lparr>name = ''Error'', message = ''Connection terminated'', code = None,
      removeFromPool = False, human = None, readonly = []\<rparr>"


text \<open>A work unit that throws a given value at its first call and returns at the next.\<close>

definition throw_once :: "thrown \<Rightarrow> (nat, nat) runner" where
  "throw_once e client s =
     (if s = 0 then (Inl e, [''SELECT 1''], 1) else (Inr 7, [''SELECT 2''], s))"

definition always_deadlock :: "(nat, nat) runner" where
  "always_deadlock client s = (Inl (Obj deadlock_error), [], Suc s)"

definition always_flagged_deadlock :: "(nat, nat) runner" where
  "always_flagged_deadlock client s = (Inl (Obj flagged_deadlock), [], Suc s)"

text \<open>A work unit that sends one statement, counts it and returns 7.\<close>

definition ok_runner :: "(nat, nat) runner" where
  "ok_runner client s = (Inr 7, [''UPDATE counters SET n = n + 1''], Suc s)"

text \<open>A store that answers every statement with the same rows.\<close>

definition store_rows :: "nat list \<Rightarrow> (nat, nat) pg" where
  "store_rows rs =
     \<lparr>connectPromise = (\<lambda>s. (None, s)),
      queryPromise = (\<lambda>client sql params s. (Inr \<lparr>rows = rs\<rparr>, s))\<rparr>"

section \<open>Properties\<close>

subsection \<open>One attempt of \<open>withClient\<close>\<close>

lemma connect_fst:
  "connectPromise pg (ext w) = (None, x0) \<Longrightarrow> fst (connect pg w) = Inr (leases w)"
  by (simp add: connect_def)

lemma run_fst:
  assumes "connectPromise pg (ext w) = (None, x0)" and "runner (leases w) x0 = (r, stmts, x1)"
  shows "fst (run runner (leases w) (snd (connect pg w))) = r"
  using assms by (simp add: connect_def run_def)

lemma done_fn_run:
  assumes "connectPromise pg (ext w) = (None, x0)" and "runner (leases w) x0 = (r, stmts, x1)"
  shows "done_fn (leases w) arg (snd (run runner (leases w) (snd (connect pg w)))) =
     after_attempt w stmts arg x1"
  using assms by (simp add: connect_def run_def done_fn_def after_attempt_def cycle_def)

lemma snd_run:
  assumes "connectPromise pg (ext w) = (None, x0)" and "runner (leases w) x0 = (r, stmts, x1)"
  shows "snd (run runner (leases w) (snd (connect pg w))) = after_leak w stmts x1"
  using assms by (simp add: connect_def run_def after_leak_def)

lemma withClient_connect_fail:
  "connectPromise pg (ext w) = (Some e, x) \<Longrightarrow>
     withClient pg runner w = Some (Inl e, w\<lparr>ext := x\<rparr>)"
  by (subst withClient.simps) (simp add: connect_def)

lemma withClient_return:
  assumes "connectPromise pg (ext w) = (None, x0)"
    and "runner (leases w) x0 = (Inr v, stmts, x1)"
  shows "withClient pg runner w = Some (Inr v, after_attempt w stmts None x1)"
  by (subst withClient.simps)
     (simp add: case_prod_unfold run_fst [where runner = runner, OF assms(1,2)]
        done_fn_run [where runner = runner, OF assms(1,2)] connect_fst [OF assms(1)])

lemma withClient_nullish:
  assumes "connectPromise pg (ext w) = (None, x0)"
    and "runner (leases w) x0 = (Inl Nullish, stmts, x1)"
  shows "withClient pg runner w =
     Some (Inl (Obj (TypeError ''err.removeFromPool'')), after_leak w stmts x1)"
  by (subst withClient.simps)
     (simp add: case_prod_unfold run_fst [where runner = runner, OF assms(1,2)]
        snd_run [where runner = runner, OF assms(1,2)] connect_fst [OF assms(1)])

lemma withClient_readonly:
  assumes "connectPromise pg (ext w) = (None, x0)"
    and "runner (leases w) x0 = (Inl (Obj err), stmts, x1)"
    and "removeFromPool err" and "''human'' \<in> set (readonly err)"
  shows "withClient pg runner w =
     Some (Inl (Obj (TypeError ''err.human = ...'')), after_leak w stmts x1)"
  by (subst withClient.simps)
     (simp add: case_prod_unfold run_fst [where runner = runner, OF assms(1,2)]
        snd_run [where runner = runner, OF assms(1,2)] connect_fst [OF assms(1)] assms(3,4))

lemma withClient_discard:
  assumes "connectPromise pg (ext w) = (None, x0)"
    and "runner (leases w) x0 = (Inl (Obj err), stmts, x1)"
    and "removeFromPool err" and "''human'' \<notin> set (readonly err)"
  shows "withClient pg runner w =
     Some (Inl (Obj (err\<lparr>human := Some ''Could not remove from pool''\<rparr>)),
           after_attempt w stmts (Some ''Removing connection from pool'') x1)"
  by (subst withClient.simps)
     (simp add: case_prod_unfold run_fst [where runner = runner, OF assms(1,2)]
        done_fn_run [where runner = runner, OF assms(1,2)] connect_fst [OF assms(1)] assms(3,4))

lemma withClient_retry:
  assumes "connectPromise pg (ext w) = (None, x0)"
    and "runner (leases w) x0 = (Inl (Obj err), stmts, x1)"
    and "\<not> removeFromPool err" and "code err = Some ''40P01''"
  shows "withClient pg runner w = withClient pg runner (after_attempt w stmts None x1)"
  by (subst withClient.simps)
     (simp add: case_prod_unfold run_fst [where runner = runner, OF assms(1,2)]
        done_fn_run [where runner = runner, OF assms(1,2)] connect_fst [OF assms(1)] assms(3,4))

lemma withClient_rethrow:
  assumes "connectPromise pg (ext w) = (None, x0)"
    and "runner (leases w) x0 = (Inl (Obj err), stmts, x1)"
    and "\<not> removeFromPool err" and "code err \<noteq> Some ''40P01''"
  shows "withClient pg runner w = Some (Inl (Obj err), after_attempt w stmts None x1)"
  by (subst withClient.simps)
     (simp add: case_prod_unfold run_fst [where runner = runner, OF assms(1,2)]
        done_fn_run [where runner = runner, OF assms(1,2)] connect_fst [OF assms(1)] assms(3,4))

subsection \<open>Traces of whole attempts\<close>

lemma lifecycle_sent: "lifecycle (Some l) (map (Sent l) stmts @ es) = lifecycle (Some l) es"
  by (induction stmts) simp_all

lemma lifecycle_cycle: "lifecycle None (cycle l stmts arg @ es) = lifecycle None es"
  by (simp add: cycle_def lifecycle_sent)

lemma acquired_append: "acquired (es @ fs) = acquired es @ acquired fs"
  by (induction es rule: acquired.induct) simp_all

lemma released_append: "released (es @ fs) = released es @ released fs"
  by (induction es rule: released.induct) simp_all

lemma acquired_sent: "acquired (map (Sent l) stmts) = []"
  by (induction stmts) simp_all

lemma released_sent: "released (map (Sent l) stmts) = []"
  by (induction stmts) simp_all

lemma acquired_cycle: "acquired (cycle l stmts arg) = [l]"
  by (simp add: cycle_def acquired_append acquired_sent)

lemma released_cycle: "released (cycle l stmts arg) = [l]"
  by (simp add: cycle_def released_append released_sent)

lemma whole_attempts_ext: "whole_attempts w (w\<lparr>ext := x\<rparr>)"
  by (simp add: whole_attempts_def)

lemma whole_attempts_one: "whole_attempts w (after_attempt w stmts arg x)"
  unfolding whole_attempts_def after_attempt_def
  by (rule exI [of _ "cycle (leases w) stmts arg"])
     (simp add: lifecycle_cycle [of _ _ _ "[]", simplified] acquired_cycle released_cycle)

lemma whole_attempts_step:
  assumes "whole_attempts (after_attempt w stmts arg x) w'"
  shows "whole_attempts w w'"
proof -
  let ?c = "cycle (leases w) stmts arg"
  from assms obtain new where new: "trace w' = (trace w @ ?c) @ new" "lifecycle None new"
    "released new = acquired new" "acquired new = [Suc (leases w) ..< leases w']"
    "Suc (leases w) \<le> leases w'"
    by (auto simp: whole_attempts_def after_attempt_def)
  have "[leases w ..< leases w'] = leases w # [Suc (leases w) ..< leases w']"
    using new(5) by (simp add: upt_conv_Cons)
  with new show ?thesis
    unfolding whole_attempts_def
    by (intro exI [of _ "?c @ new"])
       (simp add: lifecycle_cycle acquired_append released_append acquired_cycle released_cycle)
qed

text \<open>
  The invariant of the retry loop when the work unit throws nothing but values the
  \<^verbatim>\<open>catch\<close> block gets through with, by induction on the calls of a run that
  returns: every attempt adds one whole cycle.
\<close>

lemma withClient_whole_attempts:
  assumes "withClient pg runner w = Some y"
    and "\<And>l s t. fst (runner l s) = Inl t \<Longrightarrow> catchable t"
  shows "whole_attempts w (snd y)"
  using assms
proof (induction pg runner w y rule: withClient.raw_induct)
  case (1 f pg runner w y)
  note body = 1(2)
  show ?case
  proof (cases "connectPromise pg (ext w)")
    case (Pair c x0)
    show ?thesis
    proof (cases c)
      case (Some e)
      with Pair body show ?thesis by (auto simp: connect_def whole_attempts_ext)
    next
      case None
      with Pair have cn: "connectPromise pg (ext w) = (None, x0)" by simp
      obtain out stmts x1 where rn: "runner (leases w) x0 = (out, stmts, x1)"
        by (cases "runner (leases w) x0") auto
      note sims = case_prod_unfold connect_fst [OF cn] run_fst [where runner = runner, OF cn rn]
        done_fn_run [where runner = runner, OF cn rn]
      show ?thesis
      proof (cases out)
        case (Inr v)
        with body have "snd y = after_attempt w stmts None x1"
          by (auto simp: sims)
        then show ?thesis by (simp add: whole_attempts_one)
      next
        case (Inl t)
        with rn 1(4) [of "leases w" x0 t] have "catchable t" by simp
        then obtain err where t: "t = Obj err"
          and takes: "removeFromPool err \<longrightarrow> ''human'' \<notin> set (readonly err)"
          by (cases t) auto
        consider (discard) "removeFromPool err"
          | (retry) "\<not> removeFromPool err" "code err = Some ''40P01''"
          | (rethrow) "\<not> removeFromPool err" "code err \<noteq> Some ''40P01''" by blast
        then show ?thesis
        proof cases
          case discard
          with Inl t takes body
          have "snd y = after_attempt w stmts (Some ''Removing connection from pool'') x1"
            by (auto simp: sims)
          then show ?thesis by (simp add: whole_attempts_one)
        next
          case retry
          with Inl t body
          have again: "f pg runner (after_attempt w stmts None x1) = Some y"
            by (simp add: sims)
          have again': "withClient pg runner (after_attempt w stmts None x1) = Some y"
            using 1(3) withClient_retry [where runner = runner, OF cn] rn Inl t retry by simp
          have "whole_attempts (after_attempt w stmts None x1) (snd y)"
            using again again' by (rule 1(1)) (rule 1(4))
          then show ?thesis by (rule whole_attempts_step)
        next
          case rethrow
          with Inl t body have "snd y = after_attempt w stmts None x1"
            by (auto simp: sims)
          then show ?thesis by (simp add: whole_attempts_one)
        qed
      qed
    qed
  qed
qed (rule assms(1))

lemma query_whole_attempts: "whole_attempts w (snd (query pg sql params w))"
proof (cases "connectPromise pg (ext w)")
  case (Pair c x0)
  show ?thesis
  proof (cases c)
    case (Some e)
    with Pair show ?thesis by (simp add: query_def connect_def whole_attempts_ext)
  next
    case None
    with Pair have "snd (query pg sql params w) =
        after_attempt w [sql] None (snd (queryPromise pg (leases w) sql params x0))"
      by (simp add: query_def connect_def client_query_def done_fn_def after_attempt_def
          cycle_def case_prod_unfold)
    then show ?thesis by (simp add: whole_attempts_one)
  qed
qed

lemma count_list_distinct:
  "distinct xs \<Longrightarrow> count_list xs x = (if x \<in> set xs then 1 else 0)"
  by (induction xs) auto

lemma whole_attempts_once:
  assumes "whole_attempts w w'"
  shows "\<exists>new. trace w' = trace w @ new \<and> lifecycle None new \<and>
     (\<forall>l. count_list (released new) l = (if l \<in> set (acquired new) then 1 else 0))"
proof -
  from assms obtain new where new: "trace w' = trace w @ new" "lifecycle None new"
    "released new = acquired new" "acquired new = [leases w ..< leases w']"
    by (auto simp: whole_attempts_def)
  have "distinct (acquired new)" using new(4) by simp
  then have "\<forall>l. count_list (released new) l = (if l \<in> set (acquired new) then 1 else 0)"
    using new(3) by (simp add: count_list_distinct)
  with new show ?thesis by blast
qed

subsection \<open>Every lease is given back exactly once, unless the \<^verbatim>\<open>catch\<close> block throws\<close>

text \<open>
  What holds of the release: \<open>query\<close> gives every lease back exactly once (its
  \<^verbatim>\<open>finally\<close> block), and so does \<open>withClient\<close> as long as the work unit throws
  nothing but values its \<^verbatim>\<open>catch\<close> block gets through with.
\<close>

lemma release_exactly_once_catchable:
  assumes "\<And>l s t. fst (runner l s) = Inl t \<Longrightarrow> catchable t"
  shows "(withClient pg runner w = Some (r, w') \<longrightarrow>
      (\<exists>new. trace w' = trace w @ new \<and> lifecycle None new \<and>
         (\<forall>l. count_list (released new) l = (if l \<in> set (acquired new) then 1 else 0)))) \<and>
   (\<exists>new. trace (snd (query pg sql params w)) = trace w @ new \<and> lifecycle None new \<and>
      (\<forall>l. count_list (released new) l = (if l \<in> set (acquired new) then 1 else 0)))"
proof (intro conjI impI)
  assume "withClient pg runner w = Some (r, w')"
  then have "whole_attempts w (snd (r, w'))"
    using assms by (rule withClient_whole_attempts)
  then have "whole_attempts w w'" by simp
  then show "\<exists>new. trace w' = trace w @ new \<and> lifecycle None new \<and>
      (\<forall>l. count_list (released new) l = (if l \<in> set (acquired new) then 1 else 0))"
    by (rule whole_attempts_once)
next
  show "\<exists>new. trace (snd (query pg sql params w)) = trace w @ new \<and> lifecycle None new \<and>
      (\<forall>l. count_list (released new) l = (if l \<in> set (acquired new) then 1 else 0))"
    using query_whole_attempts by (rule whole_attempts_once)
qed

text \<open>
  Claim C1 fails on the code. The work unit below throws \<^verbatim>\<open>null\<close> at its first
  call. The read of \<^verbatim>\<open>err.removeFromPool\<close> in the \<^verbatim>\<open>catch\<close> block throws, and
  \<open>withClient\<close> ends with lease 0 handed out and \<^verbatim>\<open>done\<close> never called for it.
\<close>

theorem release_missed:
  "withClient ex_pg (throw_once Nullish) ex_world =
     Some (Inl (Obj (TypeError ''err.removeFromPool'')),
       \<lparr>leases = 1, trace = [Acquired 0, Sent 0 ''SELECT 1''], ext = 1\<rparr>) \<and>
   acquired [Acquired 0, Sent 0 ''SELECT 1''] = [0] \<and>
   count_list (released [Acquired 0, Sent 0 ''SELECT 1'']) 0 = 0"
  by (simp add: withClient.simps ex_pg_def throw_once_def ex_world_def connect_def run_def)

subsection \<open>Retries\<close>

lemma retried_SomeE:
  assumes "retried pg runner w = Some w1"
  obtains x0 err stmts x1 where "connectPromise pg (ext w) = (None, x0)"
    and "runner (leases w) x0 = (Inl (Obj err), stmts, x1)"
    and "\<not> removeFromPool err" and "code err = Some ''40P01''"
    and "w1 = after_attempt w stmts None x1"
proof -
  obtain c x0 where cn: "connectPromise pg (ext w) = (c, x0)"
    by (cases "connectPromise pg (ext w)")
  obtain out stmts x1 where rn: "runner (leases w) x0 = (out, stmts, x1)"
    by (cases "runner (leases w) x0") auto
  from assms cn have c: "c = None"
    by (cases c) (simp_all add: retried_def)
  from assms cn rn c obtain t where out: "out = Inl t"
    by (cases out) (simp_all add: retried_def)
  from assms cn rn c out obtain err where t: "t = Obj err"
    by (cases t) (simp_all add: retried_def)
  from assms cn rn c out t have "\<not> removeFromPool err \<and> code err = Some ''40P01'' \<and>
      w1 = after_attempt w stmts None x1"
    by (simp add: retried_def split: if_splits)
  with cn rn c out t that show thesis by simp
qed

lemma retried_SomeD:
  assumes "retried pg runner w = Some w1"
  shows "withClient pg runner w = withClient pg runner w1"
proof -
  from assms obtain x0 err stmts x1 where "connectPromise pg (ext w) = (None, x0)"
    and "runner (leases w) x0 = (Inl (Obj err), stmts, x1)"
    and "\<not> removeFromPool err" and "code err = Some ''40P01''"
    and "w1 = after_attempt w stmts None x1"
    by (rule retried_SomeE)
  then show ?thesis
    using withClient_retry [where runner = runner and pg = pg and w = w and ?x0.0 = x0]
    by simp
qed

lemma retried_NoneD:
  assumes "retried pg runner w = None"
  shows "\<exists>y. withClient pg runner w = Some y"
proof -
  obtain c x0 where cn: "connectPromise pg (ext w) = (c, x0)" by (cases "connectPromise pg (ext w)")
  obtain out stmts x1 where rn: "runner (leases w) x0 = (out, stmts, x1)"
    by (cases "runner (leases w) x0") auto
  show ?thesis
  proof (cases c)
    case (Some e)
    with cn show ?thesis by (simp add: withClient_connect_fail)
  next
    case None
    with cn have cn': "connectPromise pg (ext w) = (None, x0)" by simp
    show ?thesis
    proof (cases out)
      case (Inr v)
      with rn withClient_return [where runner = runner, OF cn'] show ?thesis by simp
    next
      case (Inl t)
      show ?thesis
      proof (cases t)
        case Nullish
        with Inl rn withClient_nullish [where runner = runner, OF cn'] show ?thesis by simp
      next
        case (Obj err)
        from Inl Obj rn have rn': "runner (leases w) x0 = (Inl (Obj err), stmts, x1)" by simp
        show ?thesis
        proof (cases "removeFromPool err")
          case True
          show ?thesis
          proof (cases "''human'' \<in> set (readonly err)")
            case True
            with \<open>removeFromPool err\<close> withClient_readonly [where runner = runner, OF cn' rn']
            show ?thesis by simp
          next
            case False
            with \<open>removeFromPool err\<close> withClient_discard [where runner = runner, OF cn' rn']
            show ?thesis by simp
          qed
        next
          case False
          with assms cn' rn' have "code err \<noteq> Some ''40P01''"
            by (simp add: retried_def split: if_splits)
          with False withClient_rethrow [where runner = runner, OF cn' rn']
          show ?thesis by simp
        qed
      qed
    qed
  qed
qed

lemma withClient_retries:
  "retries n pg runner w = Some wn \<Longrightarrow> withClient pg runner w = withClient pg runner wn"
proof (induction n arbitrary: w)
  case 0
  then show ?case by simp
next
  case (Suc n)
  then obtain w1 where w1: "retried pg runner w = Some w1" "retries n pg runner w1 = Some wn"
    by (auto split: option.splits)
  from w1(1) have "withClient pg runner w = withClient pg runner w1" by (rule retried_SomeD)
  also from w1(2) have "\<dots> = withClient pg runner wn" by (rule Suc.IH)
  finally show ?case .
qed

lemma withClient_Some_retries:
  assumes "withClient pg runner w = Some y"
  shows "\<exists>n. retries n pg runner w = None"
  using assms
proof (induction pg runner w y rule: withClient.raw_induct)
  case (1 f pg runner w y)
  show ?case
  proof (cases "retried pg runner w")
    case None
    then have "retries (Suc 0) pg runner w = None" by simp
    then show ?thesis by blast
  next
    case (Some w1)
    then have eq: "withClient pg runner w = withClient pg runner w1" by (rule retried_SomeD)
    from Some obtain x0 err stmts x1 where cn': "connectPromise pg (ext w) = (None, x0)"
      and rn: "runner (leases w) x0 = (Inl (Obj err), stmts, x1)"
      and *: "\<not> removeFromPool err" "code err = Some ''40P01''"
        "w1 = after_attempt w stmts None x1"
      by (rule retried_SomeE)
    from 1(2) * rn have "f pg runner w1 = Some y"
      by (simp add: case_prod_unfold connect_fst [OF cn'] run_fst [where runner = runner, OF cn' rn]
        done_fn_run [where runner = runner, OF cn' rn])
    moreover from 1(3) eq have "withClient pg runner w1 = Some y" by simp
    ultimately obtain n where "retries n pg runner w1 = None" using 1(1) by blast
    with Some have "retries (Suc n) pg runner w = None" by simp
    then show ?thesis by blast
  qed
qed (rule assms)

lemma retries_None_returns:
  "retries n pg runner w = None \<Longrightarrow> \<exists>y. withClient pg runner w = Some y"
proof (induction n arbitrary: w)
  case 0
  then show ?case by simp
next
  case (Suc n)
  show ?case
  proof (cases "retried pg runner w")
    case None
    then show ?thesis by (rule retried_NoneD)
  next
    case (Some w1)
    with Suc.prems have "retries n pg runner w1 = None" by simp
    then obtain y where "withClient pg runner w1 = Some y" using Suc.IH by blast
    with retried_SomeD [OF Some] show ?thesis by simp
  qed
qed

lemma always_deadlock_retries: "retries n ex_pg always_deadlock w \<noteq> None"
  by (induction n arbitrary: w)
    (simp_all add: retried_def ex_pg_def always_deadlock_def deadlock_error_def)

lemma retries_leases: "retries n pg runner w = Some wn \<Longrightarrow> leases wn = leases w + n"
proof (induction n arbitrary: w)
  case 0
  then show ?case by simp
next
  case (Suc n)
  then obtain w1 where w1: "retried pg runner w = Some w1" "retries n pg runner w1 = Some wn"
    by (auto split: option.splits)
  from w1(1) have "leases w1 = Suc (leases w)"
    by (rule retried_SomeE) (simp add: after_attempt_def)
  with Suc.IH [OF w1(2)] show ?case by simp
qed

text \<open>
  Claim C7, amended. \<open>withClient\<close> has no retry limit. For every \<open>n\<close>: when the
  first \<open>n\<close> attempts all end in a retry (the work unit throws an error with the
  deadlock code that is not flagged \<open>removeFromPool\<close>), which uses up \<open>n\<close> leases,
  and the work unit returns \<open>v\<close> at attempt \<open>n + 1\<close>, then \<open>withClient\<close> returns
  \<open>v\<close>. And \<open>withClient\<close> does not return at all exactly when every attempt
  ends in such a retry.
\<close>

theorem no_retry_limit:
  "(retries n pg runner w = Some wn \<and> connectPromise pg (ext wn) = (None, x0) \<and>
      runner (leases wn) x0 = (Inr v, stmts, x1) \<longrightarrow>
      withClient pg runner w = Some (Inr v, after_attempt wn stmts None x1) \<and>
      leases wn = leases w + n) \<and>
   ((withClient pg runner w = None) = (\<forall>k. retries k pg runner w \<noteq> None))"
proof (intro conjI impI)
  assume *: "retries n pg runner w = Some wn \<and> connectPromise pg (ext wn) = (None, x0) \<and>
      runner (leases wn) x0 = (Inr v, stmts, x1)"
  then show "withClient pg runner w = Some (Inr v, after_attempt wn stmts None x1)"
    using withClient_retries [of n pg runner w wn] withClient_return [of pg wn x0 runner v stmts x1]
    by simp
  from * show "leases wn = leases w + n"
    using retries_leases [of n pg runner w wn] by simp
next
  show "(withClient pg runner w = None) = (\<forall>k. retries k pg runner w \<noteq> None)"
  proof
    assume never: "withClient pg runner w = None"
    show "\<forall>k. retries k pg runner w \<noteq> None"
    proof
      fix k
      show "retries k pg runner w \<noteq> None"
        using retries_None_returns [of k pg runner w] never by auto
    qed
  next
    assume forever: "\<forall>k. retries k pg runner w \<noteq> None"
    show "withClient pg runner w = None"
    proof (rule ccontr)
      assume "withClient pg runner w \<noteq> None"
      then obtain y where "withClient pg runner w = Some y" by blast
      then obtain k where "retries k pg runner w = None"
        using withClient_Some_retries by blast
      with forever show False by blast
    qed
  qed
qed

theorem no_retry_limit_witness:
  "retries 2 ex_pg ex_runner ex_world =
     Some \<lparr>leases = 2,
           trace = [Acquired 0, Sent 0 ''SELECT 1'', Done 0 None,
                    Acquired 1, Sent 1 ''SELECT 1'', Done 1 None],
           ext = 2\<rparr> \<and>
   withClient ex_pg ex_runner ex_world =
     Some (Inr 42,
       \<lparr>leases = 3,
        trace = [Acquired 0, Sent 0 ''SELECT 1'', Done 0 None,
                 Acquired 1, Sent 1 ''SELECT 1'', Done 1 None,
                 Acquired 2, Done 2 None],
        ext = 2\<rparr>) \<and>
   (\<forall>k. retries k ex_pg always_deadlock ex_world \<noteq> None) \<and>
   withClient ex_pg always_deadlock ex_world = None"
proof -
  let ?w2 = "\<lparr>leases = 2,
           trace = [Acquired 0, Sent 0 ''SELECT 1'', Done 0 None,
                    Acquired 1, Sent 1 ''SELECT 1'', Done 1 None],
           ext = 2::nat\<rparr>"
  have two: "retries 2 ex_pg ex_runner ex_world = Some ?w2"
    by code_simp
  have pool: "connectPromise ex_pg (ext ?w2) = (None, 2)"
    by (simp add: ex_pg_def)
  have work: "ex_runner (leases ?w2) 2 = (Inr 42, [], 2)"
    by (simp add: ex_runner_def)
  have forever: "\<forall>k. retries k ex_pg always_deadlock ex_world \<noteq> None"
    by (simp add: always_deadlock_retries)
  from two pool work forever
    no_retry_limit [of 2 ex_pg ex_runner ex_world ?w2 2 42 "[]" 2]
    no_retry_limit [of _ ex_pg always_deadlock ex_world]
  show ?thesis by (simp add: after_attempt_def cycle_def)
qed


text \<open>
  The claim as it is written fails for an error that has the deadlock code and the
  \<open>removeFromPool\<close> flag: the work unit below throws one at every attempt, and
  \<open>withClient\<close> returns after the first.
\<close>

theorem no_retry_limit_counterexample:
  "code flagged_deadlock = Some ''40P01'' \<and>
   always_flagged_deadlock 0 0 = (Inl (Obj flagged_deadlock), [], 1) \<and>
   always_flagged_deadlock 1 1 = (Inl (Obj flagged_deadlock), [], 2) \<and>
   withClient ex_pg always_flagged_deadlock ex_world =
     Some (Inl (Obj (flagged_deadlock\<lparr>human := Some ''Could not remove from pool''\<rparr>)),
       \<lparr>leases = 1,
        trace = [Acquired 0, Done 0 (Some ''Removing connection from pool'')],
        ext = 1\<rparr>)"
  by (simp add: withClient.simps ex_pg_def always_flagged_deadlock_def ex_world_def connect_def
      run_def done_fn_def flagged_deadlock_def deadlock_error_def)

subsection \<open>The ways \<open>withClient\<close> treats a thrown value\<close>

text \<open>
  What holds of the three branches of the \<^verbatim>\<open>catch\<close> block is in the lemmas
  \<open>withClient_discard\<close>, \<open>withClient_retry\<close> and \<open>withClient_rethrow\<close> above, each
  for an object the block gets through with. The block itself throws on the values of
  \<open>withClient_nullish\<close> and \<open>withClient_readonly\<close>, and then \<^verbatim>\<open>done\<close> is not
  called; the next three theorems run the code on such values.

  Claim C4 fails on the code. The work unit throws a flagged error that is frozen.
  The assignment of \<^verbatim>\<open>err.human\<close> throws before \<^verbatim>\<open>done\<close> is reached: the lease is
  not given back, with or without an error argument, the error gets no note, and the
  caller gets a \<^verbatim>\<open>TypeError\<close> in place of the error.
\<close>

theorem discard_missed:
  "removeFromPool frozen_flagged_error \<and>
   withClient ex_pg (throw_once (Obj frozen_flagged_error)) ex_world =
     Some (Inl (Obj (TypeError ''err.human = ...'')),
       \<lparr>leases = 1, trace = [Acquired 0, Sent 0 ''SELECT 1''], ext = 1\<rparr>)"
  by (simp add: withClient.simps ex_pg_def throw_once_def ex_world_def connect_def run_def
      frozen_flagged_error_def flagged_error_def)

text \<open>
  Claim C6 fails on the code. The work unit rejects with \<^verbatim>\<open>undefined\<close>, a failure
  that has neither the flag nor the deadlock code. The read of
  \<^verbatim>\<open>err.removeFromPool\<close> throws: the lease is not given back, and the caller gets a
  \<^verbatim>\<open>TypeError\<close> in place of what the work unit threw.
\<close>

theorem rethrow_missed:
  "withClient ex_pg (\<lambda>client s. (Inl Nullish, [''INSERT INTO messages DEFAULT VALUES''], s))
     ex_world =
     Some (Inl (Obj (TypeError ''err.removeFromPool'')),
       \<lparr>leases = 1, trace = [Acquired 0, Sent 0 ''INSERT INTO messages DEFAULT VALUES''],
        ext = 0\<rparr>)"
  by (simp add: withClient.simps ex_pg_def ex_world_def connect_def run_def)

text \<open>
  Claim C9 fails on the code in the branch it names. The flag is tested before the
  code, and an error with both takes the branch of the flag and is not tried again;
  but when the error is frozen, that branch throws at the assignment of
  \<^verbatim>\<open>err.human\<close>: no release with an error argument, and a \<^verbatim>\<open>TypeError\<close> for the
  caller.
\<close>

theorem flag_before_deadlock_code_missed:
  "removeFromPool frozen_flagged_deadlock \<and> code frozen_flagged_deadlock = Some ''40P01'' \<and>
   withClient ex_pg (throw_once (Obj frozen_flagged_deadlock)) ex_world =
     Some (Inl (Obj (TypeError ''err.human = ...'')),
       \<lparr>leases = 1, trace = [Acquired 0, Sent 0 ''SELECT 1''], ext = 1\<rparr>)"
  by (simp add: withClient.simps ex_pg_def throw_once_def ex_world_def connect_def run_def
      frozen_flagged_deadlock_def flagged_deadlock_def deadlock_error_def)

text \<open>
  Claim C3, amended. When the work unit throws an error with the code \<^verbatim>\<open>'40P01'\<close>
  that is not flagged \<open>removeFromPool\<close>, and returns \<open>v\<close> when it is run again
  on the next lease, \<open>withClient\<close> gives the first lease back without argument,
  takes a second lease, runs the work unit again and returns \<open>v\<close>: two whole cycles
  in the trace, and no error for the caller.
\<close>

theorem retry_once:
  assumes "connectPromise pg (ext w) = (None, x0)"
    and "runner (leases w) x0 = (Inl (Obj err), stmts, x1)"
    and "\<not> removeFromPool err" and "code err = Some ''40P01''"
    and "connectPromise pg x1 = (None, x2)"
    and "runner (Suc (leases w)) x2 = (Inr v, stmts', x3)"
  shows "withClient pg runner w =
     Some (Inr v,
       w\<lparr>leases := Suc (Suc (leases w)),
         trace := trace w @
           Acquired (leases w) # map (Sent (leases w)) stmts @ [Done (leases w) None] @
           Acquired (Suc (leases w)) # map (Sent (Suc (leases w))) stmts' @
             [Done (Suc (leases w)) None],
         ext := x3\<rparr>)"
proof -
  let ?w1 = "after_attempt w stmts None x1"
  have "withClient pg runner w = withClient pg runner ?w1"
    using assms(1-4) by (rule withClient_retry [where runner = runner])
  also have "\<dots> = Some (Inr v, after_attempt ?w1 stmts' None x3)"
    using assms(5,6) by (intro withClient_return [where runner = runner and ?x0.0 = x2])
      (simp_all add: after_attempt_def)
  finally show ?thesis by (simp add: after_attempt_def cycle_def)
qed

theorem retry_once_witness:
  "connectPromise ex_pg (ext ex_world) = (None, 0) \<and>
   throw_once (Obj deadlock_error) (leases ex_world) 0 = (Inl (Obj deadlock_error), [''SELECT 1''], 1) \<and>
   \<not> removeFromPool deadlock_error \<and> code deadlock_error = Some ''40P01'' \<and>
   connectPromise ex_pg 1 = (None, 1) \<and>
   throw_once (Obj deadlock_error) (Suc (leases ex_world)) 1 = (Inr 7, [''SELECT 2''], 1) \<and>
   withClient ex_pg (throw_once (Obj deadlock_error)) ex_world =
     Some (Inr 7,
       \<lparr>leases = 2,
        trace = [Acquired 0, Sent 0 ''SELECT 1'', Done 0 None,
                 Acquired 1, Sent 1 ''SELECT 2'', Done 1 None],
        ext = 1\<rparr>)"
proof -
  have pool: "connectPromise ex_pg (ext ex_world) = (None, 0)"
    by (simp add: ex_pg_def ex_world_def)
  have first: "throw_once (Obj deadlock_error) (leases ex_world) 0 = (Inl (Obj deadlock_error), [''SELECT 1''], 1)"
    by (simp add: throw_once_def)
  have deadlock: "\<not> removeFromPool deadlock_error" "code deadlock_error = Some ''40P01''"
    by (simp_all add: deadlock_error_def)
  have pool': "connectPromise ex_pg 1 = (None, 1)"
    by (simp add: ex_pg_def)
  have second: "throw_once (Obj deadlock_error) (Suc (leases ex_world)) 1 = (Inr 7, [''SELECT 2''], 1)"
    by (simp add: throw_once_def)
  from retry_once [where runner = "throw_once (Obj deadlock_error)", OF pool first deadlock pool' second] pool first deadlock pool' second
  show ?thesis by (simp add: ex_world_def)
qed

text \<open>
  The claim as it is written does not exclude the flag. The work unit below throws
  an error with the deadlock code once and would return 7 at its next call, but the
  error is flagged \<open>removeFromPool\<close>: there is no second attempt, and the caller
  gets the error.
\<close>

theorem retry_once_counterexample:
  "code flagged_deadlock = Some ''40P01'' \<and>
   throw_once (Obj flagged_deadlock) 0 0 = (Inl (Obj flagged_deadlock), [''SELECT 1''], 1) \<and>
   throw_once (Obj flagged_deadlock) 1 1 = (Inr 7, [''SELECT 2''], 1) \<and>
   withClient ex_pg (throw_once (Obj flagged_deadlock)) ex_world =
     Some (Inl (Obj (flagged_deadlock\<lparr>human := Some ''Could not remove from pool''\<rparr>)),
       \<lparr>leases = 1,
        trace = [Acquired 0, Sent 0 ''SELECT 1'',
                 Done 0 (Some ''Removing connection from pool'')],
        ext = 1\<rparr>)"
  by (simp add: withClient.simps ex_pg_def throw_once_def ex_world_def connect_def
      run_def done_fn_def flagged_deadlock_def deadlock_error_def)

subsection \<open>Transactions\<close>

lemma txn_try_work_fails:
  assumes "queryPromise pg client ''BEGIN'' None x0 = (Inr b, xb)"
    and "runner client xb = (Inl t, work, x1)"
  shows "txn_try pg runner client x0 = (Inl t, ''BEGIN'' # work, x1)"
  using assms by (simp add: txn_try_def)

lemma txn_try_commit_fails:
  assumes "queryPromise pg client ''BEGIN'' None x0 = (Inr b, xb)"
    and "runner client xb = (Inr v, work, xc)"
    and "queryPromise pg client ''COMMIT'' None xc = (Inl t, x1)"
  shows "txn_try pg runner client x0 = (Inl t, ''BEGIN'' # work @ [''COMMIT''], x1)"
  using assms by (simp add: txn_try_def)

lemma transaction_rollback:
  assumes "txn_try pg runner client x0 = (Inl t, stmts, x1)"
    and "queryPromise pg client ''ROLLBACK'' None x1 = (Inr r, x2)"
  shows "transaction pg runner client x0 = (Inl t, stmts @ [''ROLLBACK''], x2)"
  using assms by (simp add: transaction_def txn_catch_def)

lemma transaction_rollback_fail:
  assumes "txn_try pg runner client x0 = (Inl t, stmts, x1)"
    and "queryPromise pg client ''ROLLBACK'' None x1 = (Inl (Obj err'), x2)"
    and "''removeFromPool'' \<notin> set (readonly err')"
  shows "transaction pg runner client x0 =
     (Inl (Obj (err'\<lparr>removeFromPool := True\<rparr>)), stmts @ [''ROLLBACK''], x2)"
  using assms by (simp add: transaction_def txn_catch_def)

lemma transaction_rollback_issued:
  assumes "txn_try pg runner client x0 = (Inl t, stmts, x1)"
  shows "\<exists>out x2. transaction pg runner client x0 = (Inl out, stmts @ [''ROLLBACK''], x2)"
proof -
  obtain o2 x2 where r: "queryPromise pg client ''ROLLBACK'' None x1 = (o2, x2)"
    by (cases "queryPromise pg client ''ROLLBACK'' None x1")
  with assms show ?thesis
    by (auto simp: transaction_def txn_catch_def split: sum.splits thrown.splits)
qed

lemma transaction_commit:
  assumes "queryPromise pg client ''BEGIN'' None x0 = (Inr b, x1)"
    and "runner client x1 = (Inr v, stmts, x2)"
    and "queryPromise pg client ''COMMIT'' None x2 = (Inr c, x3)"
  shows "transaction pg runner client x0 = (Inr v, ''BEGIN'' # stmts @ [''COMMIT''], x3)"
  using assms by (simp add: transaction_def txn_try_def)

lemma transaction_commit_issued:
  assumes "queryPromise pg client ''BEGIN'' None x0 = (Inr b, x1)"
    and "runner client x1 = (Inr v, stmts, x2)"
  shows "\<exists>out rest x. transaction pg runner client x0 =
     (out, ''BEGIN'' # stmts @ ''COMMIT'' # rest, x)"
proof -
  obtain o3 x3 where c: "queryPromise pg client ''COMMIT'' None x2 = (o3, x3)"
    by (cases "queryPromise pg client ''COMMIT'' None x2")
  show ?thesis
  proof (cases o3)
    case (Inr r)
    with assms c show ?thesis by (simp add: transaction_commit)
  next
    case (Inl t)
    with assms c have "txn_try pg runner client x0 = (Inl t, ''BEGIN'' # stmts @ [''COMMIT''], x3)"
      by (simp add: txn_try_commit_fails)
    from transaction_rollback_issued [OF this] show ?thesis by auto
  qed
qed

text \<open>
  Claim C5, amended. When \<^verbatim>\<open>BEGIN\<close> went through and the work unit returns \<open>v\<close>,
  the statements of the attempt are \<^verbatim>\<open>BEGIN\<close>, then those of the work unit, then
  \<^verbatim>\<open>COMMIT\<close>, all of them before \<^verbatim>\<open>done\<close> is called; and when \<^verbatim>\<open>COMMIT\<close> goes
  through too, \<open>withTransaction\<close> returns \<open>v\<close> and gives the lease back without
  argument.
\<close>

theorem commit_after_work:
  assumes "connectPromise pg (ext w) = (None, x0)"
    and "queryPromise pg (leases w) ''BEGIN'' None x0 = (Inr b, x1)"
    and "runner (leases w) x1 = (Inr v, stmts, x2)"
  shows "(\<exists>out rest x. transaction pg runner (leases w) x0 =
            (out, ''BEGIN'' # stmts @ ''COMMIT'' # rest, x)) \<and>
         (\<forall>c x3. queryPromise pg (leases w) ''COMMIT'' None x2 = (Inr c, x3) \<longrightarrow>
            withTransaction pg runner w =
              Some (Inr v,
                w\<lparr>leases := Suc (leases w),
                  trace := trace w @ Acquired (leases w) # Sent (leases w) ''BEGIN'' #
                    map (Sent (leases w)) stmts @
                    [Sent (leases w) ''COMMIT'', Done (leases w) None],
                  ext := x3\<rparr>))"
proof (intro conjI allI impI)
  show "\<exists>out rest x. transaction pg runner (leases w) x0 =
      (out, ''BEGIN'' # stmts @ ''COMMIT'' # rest, x)"
    using assms(2,3) by (rule transaction_commit_issued)
next
  fix c x3
  assume "queryPromise pg (leases w) ''COMMIT'' None x2 = (Inr c, x3)"
  with assms(2,3)
  have "transaction pg runner (leases w) x0 = (Inr v, ''BEGIN'' # stmts @ [''COMMIT''], x3)"
    by (rule transaction_commit)
  with assms(1) have "withClient pg (transaction pg runner) w =
      Some (Inr v, after_attempt w (''BEGIN'' # stmts @ [''COMMIT'']) None x3)"
    by (rule withClient_return [where runner = "transaction pg runner"])
  then show "withTransaction pg runner w =
      Some (Inr v,
        w\<lparr>leases := Suc (leases w),
          trace := trace w @ Acquired (leases w) # Sent (leases w) ''BEGIN'' #
            map (Sent (leases w)) stmts @
            [Sent (leases w) ''COMMIT'', Done (leases w) None],
          ext := x3\<rparr>)"
    by (simp add: withTransaction_def after_attempt_def cycle_def)
qed

theorem commit_after_work_witness:
  "connectPromise ex_pg (ext ex_world) = (None, 0) \<and>
   queryPromise ex_pg (leases ex_world) ''BEGIN'' None 0 = (Inr \<lparr>rows = [0]\<rparr>, 0) \<and>
   ok_runner (leases ex_world) 0 = (Inr 7, [''UPDATE counters SET n = n + 1''], 1) \<and>
   queryPromise ex_pg (leases ex_world) ''COMMIT'' None 1 = (Inr \<lparr>rows = [1]\<rparr>, 1) \<and>
   withTransaction ex_pg ok_runner ex_world =
     Some (Inr 7,
       \<lparr>leases = 1,
        trace = [Acquired 0, Sent 0 ''BEGIN'', Sent 0 ''UPDATE counters SET n = n + 1'',
                 Sent 0 ''COMMIT'', Done 0 None],
        ext = 1\<rparr>)"
proof -
  have pool: "connectPromise ex_pg (ext ex_world) = (None, 0)"
    by (simp add: ex_pg_def ex_world_def)
  have bgn: "queryPromise ex_pg (leases ex_world) ''BEGIN'' None 0 = (Inr \<lparr>rows = [0]\<rparr>, 0)"
    by (simp add: ex_pg_def)
  have work: "ok_runner (leases ex_world) 0 = (Inr 7, [''UPDATE counters SET n = n + 1''], 1)"
    by (simp add: ok_runner_def)
  have commit: "queryPromise ex_pg (leases ex_world) ''COMMIT'' None 1 = (Inr \<lparr>rows = [1]\<rparr>, 1)"
    by (simp add: ex_pg_def)
  from commit_after_work [where runner = ok_runner, OF pool bgn work] pool bgn work commit
  show ?thesis by (simp add: ex_world_def)
qed

text \<open>
  The claim as it is written promises the result of the work unit whenever the work
  unit returns. When the store rejects \<^verbatim>\<open>COMMIT\<close>, the work unit has returned 7, and
  the caller gets the error of \<^verbatim>\<open>COMMIT\<close> after a \<^verbatim>\<open>ROLLBACK\<close>.
\<close>

theorem commit_after_work_counterexample:
  "ok_runner 0 0 = (Inr 7, [''UPDATE counters SET n = n + 1''], 1) \<and>
   withTransaction (store_failing [''COMMIT''] (Obj unique_violation)) ok_runner ex_world =
     Some (Inl (Obj unique_violation),
       \<lparr>leases = 1,
        trace = [Acquired 0, Sent 0 ''BEGIN'', Sent 0 ''UPDATE counters SET n = n + 1'',
                 Sent 0 ''COMMIT'', Sent 0 ''ROLLBACK'', Done 0 None],
        ext = 1\<rparr>)"
  by (simp add: withTransaction_def withClient.simps transaction_def txn_try_def txn_catch_def
      store_failing_def ok_runner_def ex_world_def connect_def run_def done_fn_def
      unique_violation_def)

text \<open>
  Claim C2, amended. \<^verbatim>\<open>BEGIN\<close> went through, and then the work unit throws \<open>t\<close>, or
  it returns and \<^verbatim>\<open>COMMIT\<close> is rejected with \<open>t\<close>; \<open>stmts\<close> are the statements
  sent so far. Then \<^verbatim>\<open>ROLLBACK\<close> is the next statement sent. If \<^verbatim>\<open>ROLLBACK\<close> goes
  through and \<open>t\<close> is an object with neither the \<open>removeFromPool\<close> flag nor the
  deadlock code, the caller gets \<open>t\<close> as it is and the lease is given back without
  argument. If \<^verbatim>\<open>ROLLBACK\<close> is rejected with an object that takes the assignments of
  \<open>removeFromPool\<close> and \<open>human\<close>, the caller gets that object, flagged
  \<open>removeFromPool\<close> and with the note of \<open>withClient\<close>, and the lease is given back
  with an error argument.
\<close>

theorem rollback_on_failure:
  assumes "connectPromise pg (ext w) = (None, x0)"
    and "queryPromise pg (leases w) ''BEGIN'' None x0 = (Inr b, xb)"
    and "(runner (leases w) xb = (Inl t, work, x1) \<and> stmts = ''BEGIN'' # work) \<or>
         (runner (leases w) xb = (Inr v, work, xc) \<and>
          queryPromise pg (leases w) ''COMMIT'' None xc = (Inl t, x1) \<and>
          stmts = ''BEGIN'' # work @ [''COMMIT''])"
  shows "(\<exists>out x2. transaction pg runner (leases w) x0 = (Inl out, stmts @ [''ROLLBACK''], x2)) \<and>
         (\<forall>r x2 err. queryPromise pg (leases w) ''ROLLBACK'' None x1 = (Inr r, x2) \<and>
            t = Obj err \<and> \<not> removeFromPool err \<and> code err \<noteq> Some ''40P01'' \<longrightarrow>
            withTransaction pg runner w =
              Some (Inl t,
                w\<lparr>leases := Suc (leases w),
                  trace := trace w @ Acquired (leases w) # map (Sent (leases w)) stmts @
                    [Sent (leases w) ''ROLLBACK'', Done (leases w) None],
                  ext := x2\<rparr>)) \<and>
         (\<forall>err' x2. queryPromise pg (leases w) ''ROLLBACK'' None x1 = (Inl (Obj err'), x2) \<and>
            ''removeFromPool'' \<notin> set (readonly err') \<and> ''human'' \<notin> set (readonly err') \<longrightarrow>
            withTransaction pg runner w =
              Some (Inl (Obj (err'\<lparr>removeFromPool := True,
                                   human := Some ''Could not remove from pool''\<rparr>)),
                w\<lparr>leases := Suc (leases w),
                  trace := trace w @ Acquired (leases w) # map (Sent (leases w)) stmts @
                    [Sent (leases w) ''ROLLBACK'',
                     Done (leases w) (Some ''Removing connection from pool'')],
                  ext := x2\<rparr>))"
proof -
  from assms(2,3) have fails: "txn_try pg runner (leases w) x0 = (Inl t, stmts, x1)"
    by (auto simp: txn_try_work_fails txn_try_commit_fails)
  show ?thesis
  proof (intro conjI allI impI)
    show "\<exists>out x2. transaction pg runner (leases w) x0 = (Inl out, stmts @ [''ROLLBACK''], x2)"
      using fails by (rule transaction_rollback_issued)
  next
    fix r x2 err
    assume *: "queryPromise pg (leases w) ''ROLLBACK'' None x1 = (Inr r, x2) \<and>
        t = Obj err \<and> \<not> removeFromPool err \<and> code err \<noteq> Some ''40P01''"
    with fails
    have "transaction pg runner (leases w) x0 = (Inl (Obj err), stmts @ [''ROLLBACK''], x2)"
      by (simp add: transaction_rollback)
    with assms(1) * have "withClient pg (transaction pg runner) w =
        Some (Inl (Obj err), after_attempt w (stmts @ [''ROLLBACK'']) None x2)"
      by (intro withClient_rethrow [where runner = "transaction pg runner"]) simp_all
    with * show "withTransaction pg runner w =
        Some (Inl t,
          w\<lparr>leases := Suc (leases w),
            trace := trace w @ Acquired (leases w) # map (Sent (leases w)) stmts @
              [Sent (leases w) ''ROLLBACK'', Done (leases w) None],
            ext := x2\<rparr>)"
      by (simp add: withTransaction_def after_attempt_def cycle_def)
  next
    fix err' x2
    assume *: "queryPromise pg (leases w) ''ROLLBACK'' None x1 = (Inl (Obj err'), x2) \<and>
        ''removeFromPool'' \<notin> set (readonly err') \<and> ''human'' \<notin> set (readonly err')"
    with fails
    have "transaction pg runner (leases w) x0 =
        (Inl (Obj (err'\<lparr>removeFromPool := True\<rparr>)), stmts @ [''ROLLBACK''], x2)"
      by (simp add: transaction_rollback_fail)
    with assms(1) * have "withClient pg (transaction pg runner) w =
        Some (Inl (Obj (err'\<lparr>removeFromPool := True\<rparr>
                          \<lparr>human := Some ''Could not remove from pool''\<rparr>)),
          after_attempt w (stmts @ [''ROLLBACK'']) (Some ''Removing connection from pool'') x2)"
      by (intro withClient_discard [where runner = "transaction pg runner"]) simp_all
    then show "withTransaction pg runner w =
        Some (Inl (Obj (err'\<lparr>removeFromPool := True,
                             human := Some ''Could not remove from pool''\<rparr>)),
          w\<lparr>leases := Suc (leases w),
            trace := trace w @ Acquired (leases w) # map (Sent (leases w)) stmts @
              [Sent (leases w) ''ROLLBACK'',
               Done (leases w) (Some ''Removing connection from pool'')],
            ext := x2\<rparr>)"
      by (simp add: withTransaction_def after_attempt_def cycle_def)
  qed
qed

theorem rollback_on_failure_witness:
  "connectPromise ex_pg (ext ex_world) = (None, 0) \<and>
   queryPromise ex_pg (leases ex_world) ''BEGIN'' None 0 = (Inr \<lparr>rows = [0]\<rparr>, 0) \<and>
   throw_once (Obj unique_violation) (leases ex_world) 0 =
     (Inl (Obj unique_violation), [''SELECT 1''], 1) \<and>
   queryPromise ex_pg (leases ex_world) ''ROLLBACK'' None 1 = (Inr \<lparr>rows = [1]\<rparr>, 1) \<and>
   \<not> removeFromPool unique_violation \<and> code unique_violation \<noteq> Some ''40P01'' \<and>
   withTransaction ex_pg (throw_once (Obj unique_violation)) ex_world =
     Some (Inl (Obj unique_violation),
       \<lparr>leases = 1,
        trace = [Acquired 0, Sent 0 ''BEGIN'', Sent 0 ''SELECT 1'', Sent 0 ''ROLLBACK'',
                 Done 0 None],
        ext = 1\<rparr>) \<and>
   connectPromise (store_failing [''COMMIT'', ''ROLLBACK''] (Obj connection_lost)) (ext ex_world) =
     (None, 0) \<and>
   queryPromise (store_failing [''COMMIT'', ''ROLLBACK''] (Obj connection_lost)) (leases ex_world)
     ''BEGIN'' None 0 = (Inr \<lparr>rows = [0]\<rparr>, 0) \<and>
   ok_runner (leases ex_world) 0 = (Inr 7, [''UPDATE counters SET n = n + 1''], 1) \<and>
   queryPromise (store_failing [''COMMIT'', ''ROLLBACK''] (Obj connection_lost)) (leases ex_world)
     ''COMMIT'' None 1 = (Inl (Obj connection_lost), 1) \<and>
   queryPromise (store_failing [''COMMIT'', ''ROLLBACK''] (Obj connection_lost)) (leases ex_world)
     ''ROLLBACK'' None 1 = (Inl (Obj connection_lost), 1) \<and>
   readonly connection_lost = [] \<and>
   withTransaction (store_failing [''COMMIT'', ''ROLLBACK''] (Obj connection_lost)) ok_runner
     ex_world =
     Some (Inl (Obj (connection_lost\<lparr>removeFromPool := True,
                                      human := Some ''Could not remove from pool''\<rparr>)),
       \<lparr>leases = 1,
        trace = [Acquired 0, Sent 0 ''BEGIN'', Sent 0 ''UPDATE counters SET n = n + 1'',
                 Sent 0 ''COMMIT'', Sent 0 ''ROLLBACK'',
                 Done 0 (Some ''Removing connection from pool'')],
        ext = 1\<rparr>)"
proof -
  let ?pg = "store_failing [''COMMIT'', ''ROLLBACK''] (Obj connection_lost)"
  have pool: "connectPromise ex_pg (ext ex_world) = (None, 0)"
    by (simp add: ex_pg_def ex_world_def)
  have bgn: "queryPromise ex_pg (leases ex_world) ''BEGIN'' None 0 = (Inr \<lparr>rows = [0]\<rparr>, 0)"
    by (simp add: ex_pg_def)
  have work: "throw_once (Obj unique_violation) (leases ex_world) 0 =
      (Inl (Obj unique_violation), [''SELECT 1''], 1)"
    by (simp add: throw_once_def)
  have rollback: "queryPromise ex_pg (leases ex_world) ''ROLLBACK'' None 1 = (Inr \<lparr>rows = [1]\<rparr>, 1)"
    by (simp add: ex_pg_def)
  have plain: "\<not> removeFromPool unique_violation" "code unique_violation \<noteq> Some ''40P01''"
    by (simp_all add: unique_violation_def)
  have pool': "connectPromise ?pg (ext ex_world) = (None, 0)"
    by (simp add: store_failing_def ex_world_def)
  have bgn': "queryPromise ?pg (leases ex_world) ''BEGIN'' None 0 = (Inr \<lparr>rows = [0]\<rparr>, 0)"
    by (simp add: store_failing_def)
  have work': "ok_runner (leases ex_world) 0 = (Inr 7, [''UPDATE counters SET n = n + 1''], 1)"
    by (simp add: ok_runner_def)
  have commit': "queryPromise ?pg (leases ex_world) ''COMMIT'' None 1 = (Inl (Obj connection_lost), 1)"
    by (simp add: store_failing_def)
  have rollback': "queryPromise ?pg (leases ex_world) ''ROLLBACK'' None 1 =
      (Inl (Obj connection_lost), 1)"
    by (simp add: store_failing_def)
  have writable: "readonly connection_lost = []"
    by (simp add: connection_lost_def)
  have first: "withTransaction ex_pg (throw_once (Obj unique_violation)) ex_world =
     Some (Inl (Obj unique_violation),
       \<lparr>leases = 1,
        trace = [Acquired 0, Sent 0 ''BEGIN'', Sent 0 ''SELECT 1'', Sent 0 ''ROLLBACK'',
                 Done 0 None],
        ext = 1\<rparr>)"
    using rollback_on_failure [where pg = ex_pg and runner = "throw_once (Obj unique_violation)"
        and w = ex_world and ?x0.0 = 0 and xb = 0 and t = "Obj unique_violation"
        and work = "[''SELECT 1'']" and ?x1.0 = 1 and stmts = "[''BEGIN'', ''SELECT 1'']",
        OF pool bgn] work rollback plain
    by (simp add: ex_world_def)
  have second: "withTransaction ?pg ok_runner ex_world =
     Some (Inl (Obj (connection_lost\<lparr>removeFromPool := True,
                                      human := Some ''Could not remove from pool''\<rparr>)),
       \<lparr>leases = 1,
        trace = [Acquired 0, Sent 0 ''BEGIN'', Sent 0 ''UPDATE counters SET n = n + 1'',
                 Sent 0 ''COMMIT'', Sent 0 ''ROLLBACK'',
                 Done 0 (Some ''Removing connection from pool'')],
        ext = 1\<rparr>)"
    using rollback_on_failure [where pg = ?pg and runner = ok_runner
        and w = ex_world and ?x0.0 = 0 and xb = 0 and t = "Obj connection_lost"
        and work = "[''UPDATE counters SET n = n + 1'']" and ?x1.0 = 1 and v = 7 and xc = 1
        and stmts = "[''BEGIN'', ''UPDATE counters SET n = n + 1'', ''COMMIT'']",
        OF pool' bgn'] work' commit' rollback' writable
    by (simp add: ex_world_def)
  from pool bgn work rollback plain first pool' bgn' work' commit' rollback' writable second
  show ?thesis by blast
qed

text \<open>
  The claim as it is written promises the original failure, unchanged, whenever
  \<^verbatim>\<open>ROLLBACK\<close> goes through. Below a work unit meets a deadlock, \<^verbatim>\<open>ROLLBACK\<close> goes
  through, and \<open>withClient\<close> runs the transaction again: the caller gets the result
  7 of the second attempt and never sees the failure. And a work unit throws a
  flagged error, \<^verbatim>\<open>ROLLBACK\<close> goes through, and the caller gets the error with the
  note of \<open>withClient\<close> added, the connection dropped.
\<close>

theorem rollback_on_failure_counterexample:
  "throw_once (Obj deadlock_error) 0 0 = (Inl (Obj deadlock_error), [''SELECT 1''], 1) \<and>
   queryPromise ex_pg 0 ''ROLLBACK'' None 1 = (Inr \<lparr>rows = [1]\<rparr>, 1) \<and>
   withTransaction ex_pg (throw_once (Obj deadlock_error)) ex_world =
     Some (Inr 7,
       \<lparr>leases = 2,
        trace = [Acquired 0, Sent 0 ''BEGIN'', Sent 0 ''SELECT 1'', Sent 0 ''ROLLBACK'',
                 Done 0 None,
                 Acquired 1, Sent 1 ''BEGIN'', Sent 1 ''SELECT 2'', Sent 1 ''COMMIT'',
                 Done 1 None],
        ext = 1\<rparr>) \<and>
   throw_once (Obj flagged_error) 0 0 = (Inl (Obj flagged_error), [''SELECT 1''], 1) \<and>
   withTransaction ex_pg (throw_once (Obj flagged_error)) ex_world =
     Some (Inl (Obj (flagged_error\<lparr>human := Some ''Could not remove from pool''\<rparr>)),
       \<lparr>leases = 1,
        trace = [Acquired 0, Sent 0 ''BEGIN'', Sent 0 ''SELECT 1'', Sent 0 ''ROLLBACK'',
                 Done 0 (Some ''Removing connection from pool'')],
        ext = 1\<rparr>)"
  by (simp add: withTransaction_def withClient.simps transaction_def txn_try_def txn_catch_def
      ex_pg_def throw_once_def ex_world_def connect_def run_def done_fn_def deadlock_error_def
      flagged_error_def)

subsection \<open>The two projections of a result\<close>

lemma query_result:
  assumes "connectPromise pg (ext w) = (None, x0)"
    and "queryPromise pg (leases w) sql params x0 = (r, x1)"
  shows "query pg sql params w = (r, after_attempt w [sql] None x1)"
  using assms
  by (simp add: query_def connect_def client_query_def done_fn_def after_attempt_def cycle_def)

text \<open>
  Claim C8. When the store answers a statement with a result, \<open>queryMany\<close> returns
  its rows as they are, in their order; \<open>queryOne\<close> returns \<open>None\<close> (the absent
  value) when there is no row, the row when there is one, and throws the assertion
  failure when there are two or more. In each case the lease of the query has been
  given back.
\<close>

theorem queryOne_queryMany_rows:
  assumes "connectPromise pg (ext w) = (None, x0)"
    and "queryPromise pg (leases w) sql params x0 = (Inr result, x1)"
    and "w' = w\<lparr>leases := Suc (leases w),
                 trace := trace w @ [Acquired (leases w), Sent (leases w) sql, Done (leases w) None],
                 ext := x1\<rparr>"
  shows "queryMany pg sql params w = (Inr (rows result), w') \<and>
         (rows result = [] \<longrightarrow> queryOne pg sql params w = (Inr None, w')) \<and>
         (\<forall>r. rows result = [r] \<longrightarrow> queryOne pg sql params w = (Inr (Some r), w')) \<and>
         (2 \<le> length (rows result) \<longrightarrow>
            queryOne pg sql params w = (Inl (Obj (AssertionError ''result.rows.length <= 1'')), w'))"
proof -
  have "query pg sql params w = (Inr result, w')"
    using query_result [OF assms(1,2)] assms(3) by (simp add: after_attempt_def cycle_def)
  then show ?thesis
    by (auto simp: queryMany_def queryOne_def)
qed

theorem queryOne_queryMany_rows_witness:
  "queryMany (store_rows [5, 6]) ''SELECT 1'' None ex_world =
     (Inr [5, 6], \<lparr>leases = 1, trace = [Acquired 0, Sent 0 ''SELECT 1'', Done 0 None], ext = 0\<rparr>) \<and>
   queryOne (store_rows []) ''SELECT 1'' None ex_world =
     (Inr None, \<lparr>leases = 1, trace = [Acquired 0, Sent 0 ''SELECT 1'', Done 0 None], ext = 0\<rparr>) \<and>
   queryOne (store_rows [5]) ''SELECT 1'' None ex_world =
     (Inr (Some 5), \<lparr>leases = 1, trace = [Acquired 0, Sent 0 ''SELECT 1'', Done 0 None], ext = 0\<rparr>) \<and>
   queryOne (store_rows [5, 6]) ''SELECT 1'' None ex_world =
     (Inl (Obj (AssertionError ''result.rows.length <= 1'')),
      \<lparr>leases = 1, trace = [Acquired 0, Sent 0 ''SELECT 1'', Done 0 None], ext = 0\<rparr>)"
proof -
  let ?w' = "\<lparr>leases = 1, trace = [Acquired 0, Sent 0 ''SELECT 1'', Done 0 None], ext = 0::nat\<rparr>"
  have pool: "connectPromise (store_rows rs) (ext ex_world) = (None, 0)" for rs
    by (simp add: store_rows_def ex_world_def)
  have answer: "queryPromise (store_rows rs) (leases ex_world) ''SELECT 1'' None 0 =
      (Inr \<lparr>rows = rs\<rparr>, 0)" for rs
    by (simp add: store_rows_def)
  have after: "?w' = ex_world\<lparr>leases := Suc (leases ex_world),
      trace := trace ex_world @ [Acquired (leases ex_world), Sent (leases ex_world) ''SELECT 1'',
        Done (leases ex_world) None],
      ext := 0\<rparr>"
    by (simp add: ex_world_def)
  from queryOne_queryMany_rows [OF pool answer after, of "[]"]
    queryOne_queryMany_rows [OF pool answer after, of "[5]"]
    queryOne_queryMany_rows [OF pool answer after, of "[5, 6]"]
  show ?thesis by simp
qed

subsection \<open>The statements that open with a semicolon\<close>






end
